theory Spec2Isabelle
  imports Main "HOL-Library.Word"
begin

section \<open>Values shared by the whole package\<close>

text \<open>
  The package-level error values of \<^verbatim>\<open>client.go\<close> and \<^verbatim>\<open>database.go\<close>, and the
  errors of \<^verbatim>\<open>database/sql\<close> and of the driver that the package passes through
  unchanged.
\<close>

datatype error =
    ErrorClientInvalidReplica
  | ErrorNotImplemented
  | ErrorResultNoColumnsFound
  | ErrRowsClosed
  | ErrScanArgCount nat nat
  | DriverError string

text \<open>Run-time panics of Go: they are not error returns and unwind the caller.\<close>

datatype panic = NilDereference | IndexOutOfRange | DivideByZero

datatype 'a outcome = Panics panic | Returns 'a

type_synonym int32 = "32 word"

text \<open>
  Go's \<^verbatim>\<open>%\<close> on signed integers truncates towards zero: the remainder has the sign
  of the dividend. A zero divisor panics and is handled by the caller of this function.
\<close>

definition go_rem :: "int \<Rightarrow> int \<Rightarrow> int" where
  "go_rem a b = sgn a * (\<bar>a\<bar> mod \<bar>b\<bar>)"

text \<open>Indexing a slice with a signed index: out of range panics.\<close>

definition slice_index :: "'a list \<Rightarrow> int \<Rightarrow> 'a outcome" where
  "slice_index xs i =
     (if 0 \<le> i \<and> i < int (length xs) then Returns (xs ! nat i) else Panics IndexOutOfRange)"

section \<open>Configuration (\<^verbatim>\<open>database.go\<close>)\<close>

text \<open>
  \<^verbatim>\<open>Config\<close> embeds a pointer, \<^verbatim>\<open>*driver.Config\<close>, and promotes its fields. The record
  \<open>Config\<close> is a configuration whose embedded pointer is set: the record extension
  mirrors the promotion. Only the driver fields this package reads or writes are kept. A
  \<^verbatim>\<open>time.Duration\<close> is a number of nanoseconds.
\<close>

record driver_Config =
  Net :: string
  Addr :: string
  DBName :: string
  User :: string
  Passwd :: string
  Timeout :: int
  ReadTimeout :: int
  WriteTimeout :: int

record Config = driver_Config +
  MaxOpenConns :: int
  MaxIdleConns :: int
  MaxLifetime :: int
  PingTest :: bool

text \<open>
  What a caller can pass as a \<^verbatim>\<open>*Config\<close>: the \<^verbatim>\<open>nil\<close> pointer; a configuration whose
  embedded \<^verbatim>\<open>*driver.Config\<close> is \<^verbatim>\<open>nil\<close>, such as \<^verbatim>\<open>&Config{}\<close>, with its own four
  fields (\<^verbatim>\<open>MaxOpenConns\<close>, \<^verbatim>\<open>MaxIdleConns\<close>, \<^verbatim>\<open>MaxLifetime\<close>, \<^verbatim>\<open>PingTest\<close>); or a
  configuration whose embedded pointer is set, as \<^verbatim>\<open>NewDefaultConfig\<close> builds them.
\<close>

datatype Config_ptr =
    NilConfig
  | NoDriver int int int bool
  | WithDriver Config

definition Second :: int where
  "Second = 1000000000"

definition DefaultMaxOpenConns :: int where
  "DefaultMaxOpenConns = 50"

definition DefaultMaxIdleConns :: int where
  "DefaultMaxIdleConns = 10"

definition DefaultMaxLifetime :: int where
  "DefaultMaxLifetime = 30 * Second"

definition DefaultDialTimeout :: int where
  "DefaultDialTimeout = 2 * Second"

definition DefaultReadTimeout :: int where
  "DefaultReadTimeout = 0 * Second"

definition DefaultWriteTimeout :: int where
  "DefaultWriteTimeout = 0 * Second"

text \<open>
  \<^verbatim>\<open>NewDefaultConfig\<close> stores \<^verbatim>\<open>false\<close> in \<^verbatim>\<open>PingTest\<close> whatever its \<^verbatim>\<open>ping\<close>
  argument is.
\<close>

definition NewDefaultConfig :: "string \<Rightarrow> string \<Rightarrow> string \<Rightarrow> string \<Rightarrow> bool \<Rightarrow> Config" where
  "NewDefaultConfig addr dbname user passwd ping =
     \<lparr> Net = ''tcp'', Addr = addr, DBName = dbname, User = user, Passwd = passwd,
       Timeout = DefaultDialTimeout, ReadTimeout = DefaultReadTimeout,
       WriteTimeout = DefaultWriteTimeout,
       MaxOpenConns = DefaultMaxOpenConns, MaxIdleConns = DefaultMaxIdleConns,
       MaxLifetime = DefaultMaxLifetime, PingTest = False \<rparr>"

definition UniqId :: "Config \<Rightarrow> string" where
  "UniqId c = Net c @ ''://'' @ Addr c @ ''/'' @ DBName c"

section \<open>The collaborator: \<^verbatim>\<open>database/sql\<close> as this package sees it\<close>

subsection \<open>Row cursors (\<^verbatim>\<open>*sql.Rows\<close>)\<close>

text \<open>
  A \<^verbatim>\<open>sql.RawBytes\<close> is a byte slice; scanning a SQL NULL leaves it \<^verbatim>\<open>nil\<close>
  (\<open>None\<close>). A cursor holds its column names, the rows not yet delivered, the row
  delivered by the last successful \<^verbatim>\<open>Next\<close>, and whether it is closed.
\<close>

type_synonym RawBytes = "string option"

record sql_Rows =
  cols :: "string list"
  pending :: "RawBytes list list"
  lastcols :: "RawBytes list option"
  closed :: bool

definition Columns :: "sql_Rows \<Rightarrow> error + string list" where
  "Columns rs = (if closed rs then Inl ErrRowsClosed else Inr (cols rs))"

text \<open>A closed cursor delivers nothing more: the row of the last \<^verbatim>\<open>Next\<close> is gone.\<close>

definition Close :: "sql_Rows \<Rightarrow> sql_Rows" where
  "Close rs = rs\<lparr>lastcols := None, closed := True\<rparr>"

text \<open>
  \<^verbatim>\<open>Next\<close> prepares the next row; when none is left it closes the cursor itself and
  answers \<^verbatim>\<open>false\<close>.
\<close>

definition Next :: "sql_Rows \<Rightarrow> bool \<times> sql_Rows" where
  "Next rs =
     (if closed rs then (False, rs)
      else case pending rs of
             [] \<Rightarrow> (False, Close rs)
           | row # rest \<Rightarrow> (True, rs\<lparr>pending := rest, lastcols := Some row\<rparr>))"

text \<open>
  \<^verbatim>\<open>Scan\<close> into \<open>n\<close> \<^verbatim>\<open>*sql.RawBytes\<close> destinations: every destination receives
  the bytes of its column, or \<^verbatim>\<open>nil\<close> for NULL.
\<close>

definition Scan :: "sql_Rows \<Rightarrow> nat \<Rightarrow> error + RawBytes list" where
  "Scan rs n =
     (if closed rs then Inl ErrRowsClosed
      else case lastcols rs of
             None \<Rightarrow> Inl (DriverError ''sql: Scan called without calling Next'')
           | Some row \<Rightarrow>
               if n \<noteq> length row then Inl (ErrScanArgCount (length row) n)
               else Inr row)"

subsection \<open>Mutation outcomes (\<^verbatim>\<open>sql.Result\<close>)\<close>

record sql_Result =
  rows_affected :: "int \<times> error option"
  last_insert_id :: "int \<times> error option"

subsection \<open>Connection pools (\<^verbatim>\<open>*sql.DB\<close>)\<close>

text \<open>
  A pool is known by its identity. The world records how many pools \<^verbatim>\<open>sql.Open\<close> has
  created and, in order, every call a pool has received. What a pool answers is decided
  outside this package: the environment gives the answers, which may depend on the
  history.
\<close>

type_synonym pool = nat

datatype ctx = Background | WithTimeout ctx int | Caller nat

datatype arg = ArgNil | ArgInt int | ArgString string

datatype call =
    SetConnMaxLifetime int
  | SetMaxOpenConns int
  | SetMaxIdleConns int
  | PingContext ctx
  | CloseDB
  | QueryContext ctx string "arg list"
  | ExecContext ctx string "arg list"
  | BeginTx ctx

record world =
  opened :: nat
  calls :: "(pool \<times> call) list"

record env =
  FormatDSN :: "Config \<Rightarrow> string"
  open_reply :: "world \<Rightarrow> string \<Rightarrow> error option"
  ping_reply :: "world \<Rightarrow> pool \<Rightarrow> ctx \<Rightarrow> error option"
  query_reply :: "world \<Rightarrow> pool \<Rightarrow> ctx \<Rightarrow> string \<Rightarrow> arg list \<Rightarrow> sql_Rows option \<times> error option"
  exec_reply :: "world \<Rightarrow> pool \<Rightarrow> ctx \<Rightarrow> string \<Rightarrow> arg list \<Rightarrow> sql_Result option \<times> error option"
  begin_reply :: "world \<Rightarrow> pool \<Rightarrow> ctx \<Rightarrow> error + nat"

definition sql_Open :: "env \<Rightarrow> string \<Rightarrow> world \<Rightarrow> (error + pool) \<times> world" where
  "sql_Open e dsn w =
     (case open_reply e w dsn of
        Some err \<Rightarrow> (Inl err, w)
      | None \<Rightarrow> (Inr (opened w), w\<lparr>opened := Suc (opened w)\<rparr>))"

definition received :: "pool \<Rightarrow> call \<Rightarrow> world \<Rightarrow> world" where
  "received p k w = w\<lparr>calls := calls w @ [(p, k)]\<rparr>"

definition defaultCtx :: ctx where
  "defaultCtx = Background"

section \<open>Results (\<^verbatim>\<open>database.go\<close>)\<close>

text \<open>
  A \<^verbatim>\<open>Result\<close> holds a pointer to a cursor and an \<^verbatim>\<open>sql.Result\<close> interface value;
  either may be \<^verbatim>\<open>nil\<close> (\<open>None\<close>). The cursor behind the pointer is mutable: the
  operations below return the \<^verbatim>\<open>Result\<close> with the cursor's new state.
\<close>

record Result =
  hit :: string
  rows :: "sql_Rows option"
  result :: "sql_Result option"

text \<open>
  A handle keeps the pool and the configuration it was opened from; that configuration
  has gone through \<^verbatim>\<open>conf.FormatDSN()\<close>, so its embedded pointer is set.
\<close>

record Database =
  db :: pool
  cf :: Config

definition buildResult :: "Database \<Rightarrow> sql_Result option \<Rightarrow> Result" where
  "buildResult d res = \<lparr> hit = UniqId (cf d), rows = None, result = res \<rparr>"

definition buildResultRows :: "Database \<Rightarrow> sql_Rows option \<Rightarrow> Result" where
  "buildResultRows d rs = \<lparr> hit = UniqId (cf d), rows = rs, result = None \<rparr>"

definition Hit :: "Result \<Rightarrow> string" where
  "Hit r = hit r"

text \<open>
  A row is a \<^verbatim>\<open>map[string]string\<close>. Go's \<^verbatim>\<open>nil\<close> map has no entry and reads like
  the empty map, which stands for it here. The loop over the scanned values writes
  \<^verbatim>\<open>row[columns[i]]\<close> for each index in turn; \<^verbatim>\<open>values\<close> was made with
  \<^verbatim>\<open>len(columns)\<close> entries, so the two run in step.
\<close>

type_synonym row_map = "string \<rightharpoonup> string"

definition decode :: "RawBytes \<Rightarrow> string" where
  "decode v = (case v of None \<Rightarrow> [] | Some b \<Rightarrow> b)"

fun fill_row :: "row_map \<Rightarrow> string list \<Rightarrow> RawBytes list \<Rightarrow> row_map" where
  "fill_row row (c # columns) (v # vals) = fill_row (row(c \<mapsto> decode v)) columns vals"
| "fill_row row _ _ = row"

definition Row :: "Result \<Rightarrow> (error + row_map) \<times> Result" where
  "Row r =
     (case rows r of
        None \<Rightarrow> (Inr Map.empty, r)
      | Some rs \<Rightarrow>
          (case Columns rs of
             Inl err \<Rightarrow> (Inl err, r)
           | Inr columns \<Rightarrow>
               if length columns = 0 then (Inl ErrorResultNoColumnsFound, r)
               else
                 (case Next rs of
                    (True, rs1) \<Rightarrow>
                      (case Scan rs1 (length columns) of
                         Inl err \<Rightarrow> (Inl err, r\<lparr>rows := Some rs1\<rparr>)
                       | Inr vals \<Rightarrow>
                           (Inr (fill_row Map.empty columns vals),
                            r\<lparr>rows := Some (Close rs1)\<rparr>))
                  | (False, rs1) \<Rightarrow> (Inr Map.empty, r\<lparr>rows := Some rs1\<rparr>))))"

text \<open>
  The loop of \<^verbatim>\<open>Rows\<close>: \<open>acc\<close> is the slice built so far (\<^verbatim>\<open>nil\<close> is the empty
  list). Every round that goes on has taken a row off the cursor.
\<close>

function Rows_loop :: "string list \<Rightarrow> sql_Rows \<Rightarrow> row_map list \<Rightarrow> (error + row_map list) \<times> sql_Rows" where
  "Rows_loop columns rs acc =
     (if fst (Next rs) then
        (case Scan (snd (Next rs)) (length columns) of
           Inl err \<Rightarrow> (Inl err, snd (Next rs))
         | Inr vals \<Rightarrow>
             Rows_loop columns (snd (Next rs)) (acc @ [fill_row Map.empty columns vals]))
      else (Inr acc, snd (Next rs)))"
  by pat_completeness auto
termination
  by (relation "measure (\<lambda>(columns, rs, acc). length (pending rs))")
     (auto simp: Next_def split: if_splits list.splits)

declare Rows_loop.simps [simp del]

definition Rows :: "Result \<Rightarrow> (error + row_map list) \<times> Result" where
  "Rows r =
     (case rows r of
        None \<Rightarrow> (Inr [], r)
      | Some rs \<Rightarrow>
          (case Columns rs of
             Inl err \<Rightarrow> (Inl err, r)
           | Inr columns \<Rightarrow>
               if length columns = 0 then (Inl ErrorResultNoColumnsFound, r)
               else
                 (case Rows_loop columns rs [] of
                    (res, rs1) \<Rightarrow> (res, r\<lparr>rows := Some rs1\<rparr>))))"

definition Unmarshal :: "Result \<Rightarrow> error option" where
  "Unmarshal r = Some ErrorNotImplemented"

text \<open>Calling a method on the \<^verbatim>\<open>nil\<close> interface value panics.\<close>

definition RowsAffected :: "Result \<Rightarrow> (int \<times> error option) outcome" where
  "RowsAffected r =
     (case result r of
        None \<Rightarrow> Panics NilDereference
      | Some res \<Rightarrow> Returns (rows_affected res))"

definition LastInsertId :: "Result \<Rightarrow> (int \<times> error option) outcome" where
  "LastInsertId r =
     (case result r of
        None \<Rightarrow> Panics NilDereference
      | Some res \<Rightarrow> Returns (last_insert_id res))"

section \<open>Database handles (\<^verbatim>\<open>database.go\<close>)\<close>

text \<open>
  \<^verbatim>\<open>NewDatabaseWithConfig\<close> evaluates \<^verbatim>\<open>conf.FormatDSN()\<close> first, which reads the
  driver's fields through the configuration and its embedded pointer: a \<^verbatim>\<open>nil\<close>
  configuration and a configuration whose embedded pointer is \<^verbatim>\<open>nil\<close> both panic there,
  before anything is opened. A handle is therefore only ever built over a configuration
  whose embedded pointer is set. A failed ping closes the pool that was just opened.
\<close>

definition NewDatabaseWithConfig ::
    "env \<Rightarrow> Config_ptr \<Rightarrow> world \<Rightarrow> (error + Database) outcome \<times> world" where
  "NewDatabaseWithConfig e conf w =
     (case conf of
        NilConfig \<Rightarrow> (Panics NilDereference, w)
      | NoDriver max_open max_idle lifetime ping \<Rightarrow> (Panics NilDereference, w)
      | WithDriver c \<Rightarrow>
          (case sql_Open e (FormatDSN e c) w of
             (Inl err, w1) \<Rightarrow> (Returns (Inl err), w1)
           | (Inr p, w1) \<Rightarrow>
               (let w2 = received p (SetConnMaxLifetime (MaxLifetime c)) w1;
                    w3 = received p (SetMaxOpenConns (MaxOpenConns c)) w2;
                    w4 = received p (SetMaxIdleConns (MaxIdleConns c)) w3
                in if PingTest c then
                     (let k = WithTimeout defaultCtx (Timeout c);
                          w5 = received p (PingContext k) w4
                      in case ping_reply e w4 p k of
                           Some err \<Rightarrow> (Returns (Inl err), received p CloseDB w5)
                         | None \<Rightarrow> (Returns (Inr \<lparr> db = p, cf = c \<rparr>), w5))
                   else (Returns (Inr \<lparr> db = p, cf = c \<rparr>), w4))))"

definition Database_QueryContext ::
    "env \<Rightarrow> Database \<Rightarrow> ctx \<Rightarrow> string \<Rightarrow> arg list \<Rightarrow> world \<Rightarrow> (Result \<times> error option) \<times> world" where
  "Database_QueryContext e d k query args w =
     (case query_reply e w (db d) k query args of
        (rs, err) \<Rightarrow> ((buildResultRows d rs, err), received (db d) (QueryContext k query args) w))"

definition Database_Query ::
    "env \<Rightarrow> Database \<Rightarrow> string \<Rightarrow> arg list \<Rightarrow> world \<Rightarrow> (Result \<times> error option) \<times> world" where
  "Database_Query e d query args w = Database_QueryContext e d defaultCtx query args w"

definition Database_ExecContext ::
    "env \<Rightarrow> Database \<Rightarrow> ctx \<Rightarrow> string \<Rightarrow> arg list \<Rightarrow> world \<Rightarrow> (Result \<times> error option) \<times> world" where
  "Database_ExecContext e d k query args w =
     (case exec_reply e w (db d) k query args of
        (res, err) \<Rightarrow> ((buildResult d res, err), received (db d) (ExecContext k query args) w))"

definition Database_Exec ::
    "env \<Rightarrow> Database \<Rightarrow> string \<Rightarrow> arg list \<Rightarrow> world \<Rightarrow> (Result \<times> error option) \<times> world" where
  "Database_Exec e d query args w = Database_ExecContext e d defaultCtx query args w"

record Transaction =
  tdb :: Database
  tx :: nat

definition Database_BeginTransactionContext ::
    "env \<Rightarrow> Database \<Rightarrow> ctx \<Rightarrow> world \<Rightarrow> (error + Transaction) \<times> world" where
  "Database_BeginTransactionContext e d k w =
     (case begin_reply e w (db d) k of
        Inl err \<Rightarrow> (Inl err, received (db d) (BeginTx k) w)
      | Inr t \<Rightarrow> (Inr \<lparr> tdb = d, tx = t \<rparr>, received (db d) (BeginTx k) w))"

definition Database_BeginTransaction ::
    "env \<Rightarrow> Database \<Rightarrow> world \<Rightarrow> (error + Transaction) \<times> world" where
  "Database_BeginTransaction e d w = Database_BeginTransactionContext e d defaultCtx w"

section \<open>The client (\<^verbatim>\<open>client.go\<close>)\<close>

text \<open>
  The cursor is an \<^verbatim>\<open>int32\<close>. The model is sequential: the lock and the atomic
  addition are what make the concurrent program behave like one of its interleavings.
\<close>

record Client =
  primary :: Database
  replicas :: "Database list"
  cursor :: int32

definition NewClient :: "env \<Rightarrow> Config_ptr \<Rightarrow> world \<Rightarrow> (error + Client) outcome \<times> world" where
  "NewClient e conf w =
     (case NewDatabaseWithConfig e conf w of
        (Panics p, w1) \<Rightarrow> (Panics p, w1)
      | (Returns (Inl err), w1) \<Rightarrow> (Returns (Inl err), w1)
      | (Returns (Inr d), w1) \<Rightarrow>
          (Returns (Inr \<lparr> primary = d, replicas = [], cursor = 0 \<rparr>), w1))"

definition SetReplica ::
    "env \<Rightarrow> Client \<Rightarrow> Config_ptr \<Rightarrow> world \<Rightarrow> error option outcome \<times> Client \<times> world" where
  "SetReplica e c replica w =
     (if replica = NilConfig then (Returns (Some ErrorClientInvalidReplica), c, w)
      else
        (case NewDatabaseWithConfig e replica w of
           (Panics p, w1) \<Rightarrow> (Panics p, c, w1)
         | (Returns (Inl err), w1) \<Rightarrow> (Returns (Some err), c, w1)
         | (Returns (Inr d), w1) \<Rightarrow>
             (Returns None, c\<lparr>replicas := replicas c @ [d]\<rparr>, w1)))"

definition getp :: "Client \<Rightarrow> Database" where
  "getp c = primary c"

text \<open>
  \<^verbatim>\<open>atomic.AddInt32\<close> adds with wrap-around and answers the new value;
  \<^verbatim>\<open>int32(n)\<close> keeps the low 32 bits of the length; both operands of \<^verbatim>\<open>%\<close> are read
  as signed.
\<close>

definition getr :: "Client \<Rightarrow> Database outcome \<times> Client" where
  "getr c =
     (let n = length (replicas c) in
      if n \<le> 0 then (Returns (getp c), c)
      else if n = 1 then (slice_index (replicas c) 0, c)
      else
        (let c1 = c\<lparr>cursor := cursor c + 1\<rparr>;
             m = (word_of_nat n :: int32)
         in if m = 0 then (Panics DivideByZero, c1)
            else (slice_index (replicas c) (go_rem (sint (cursor c1)) (sint m)), c1)))"

definition Client_Query ::
    "env \<Rightarrow> Client \<Rightarrow> string \<Rightarrow> arg list \<Rightarrow> world \<Rightarrow> (Result \<times> error option) outcome \<times> Client \<times> world" where
  "Client_Query e c query args w =
     (case getr c of
        (Panics p, c1) \<Rightarrow> (Panics p, c1, w)
      | (Returns d, c1) \<Rightarrow>
          (case Database_Query e d query args w of (r, w1) \<Rightarrow> (Returns r, c1, w1)))"

definition Client_QueryContext ::
    "env \<Rightarrow> Client \<Rightarrow> ctx \<Rightarrow> string \<Rightarrow> arg list \<Rightarrow> world \<Rightarrow> (Result \<times> error option) outcome \<times> Client \<times> world" where
  "Client_QueryContext e c k query args w =
     (case getr c of
        (Panics p, c1) \<Rightarrow> (Panics p, c1, w)
      | (Returns d, c1) \<Rightarrow>
          (case Database_QueryContext e d k query args w of (r, w1) \<Rightarrow> (Returns r, c1, w1)))"

definition Client_Exec ::
    "env \<Rightarrow> Client \<Rightarrow> string \<Rightarrow> arg list \<Rightarrow> world \<Rightarrow> (Result \<times> error option) \<times> world" where
  "Client_Exec e c query args w = Database_Exec e (getp c) query args w"

definition Client_ExecContext ::
    "env \<Rightarrow> Client \<Rightarrow> ctx \<Rightarrow> string \<Rightarrow> arg list \<Rightarrow> world \<Rightarrow> (Result \<times> error option) \<times> world" where
  "Client_ExecContext e c k query args w = Database_ExecContext e (getp c) k query args w"

definition Client_BeginTransaction ::
    "env \<Rightarrow> Client \<Rightarrow> world \<Rightarrow> (error + Transaction) \<times> world" where
  "Client_BeginTransaction e c w = Database_BeginTransaction e (getp c) w"

definition Client_BeginTransactionContext ::
    "env \<Rightarrow> Client \<Rightarrow> ctx \<Rightarrow> world \<Rightarrow> (error + Transaction) \<times> world" where
  "Client_BeginTransactionContext e c k w = Database_BeginTransactionContext e (getp c) k w"

definition GetPrimary :: "Client \<Rightarrow> Database" where
  "GetPrimary c = getp c"

definition GetReplica :: "Client \<Rightarrow> Database outcome \<times> Client" where
  "GetReplica c = getr c"

text \<open>Consecutive read selections, oldest first, with no registration in between.\<close>

fun getr_times :: "nat \<Rightarrow> Client \<Rightarrow> Database outcome list \<times> Client" where
  "getr_times 0 c = ([], c)"
| "getr_times (Suc k) c =
     (case getr c of (d, c1) \<Rightarrow> (case getr_times k c1 of (ds, c2) \<Rightarrow> (d # ds, c2)))"

section \<open>Concrete values\<close>

text \<open>The configuration of the package's tests, and a cursor of two rows with a NULL.\<close>

definition test_config :: Config where
  "test_config = NewDefaultConfig ''127.0.0.1:3306'' ''test'' ''root'' ''123456'' False"

definition users_rows :: sql_Rows where
  "users_rows =
     \<lparr> cols = [''uid'', ''name''],
       pending = [[Some ''5'', None], [Some ''6'', Some ''bob'']],
       lastcols = None, closed = False \<rparr>"

text \<open>
  What \<^verbatim>\<open>SELECT NULL AS a, 'x' AS a\<close> answers: one row, two columns of the same name.
\<close>

definition alias_rows :: sql_Rows where
  "alias_rows =
     \<lparr> cols = [''a'', ''a''], pending = [[None, Some ''x'']], lastcols = None, closed = False \<rparr>"

text \<open>An environment in which every call succeeds and every query answers \<open>users_rows\<close>.\<close>

definition quiet_env :: env where
  "quiet_env =
     \<lparr> FormatDSN = (\<lambda>c. User c @ '':'' @ Passwd c @ ''@'' @ Net c @ ''('' @ Addr c @ '')/'' @ DBName c),
       open_reply = (\<lambda>w dsn. None),
       ping_reply = (\<lambda>w p k. None),
       query_reply = (\<lambda>w p k q a. (Some users_rows, None)),
       exec_reply = (\<lambda>w p k q a.
          (Some \<lparr> rows_affected = (1, None), last_insert_id = (7, None) \<rparr>, None)),
       begin_reply = (\<lambda>w p k. Inr 0) \<rparr>"

text \<open>An environment whose \<^verbatim>\<open>sql.Open\<close> fails.\<close>

definition failing_env :: env where
  "failing_env = quiet_env\<lparr> open_reply := (\<lambda>w dsn. Some (DriverError ''sql: unknown driver'')) \<rparr>"

definition handle :: "pool \<Rightarrow> Database" where
  "handle p = \<lparr> db = p, cf = test_config \<rparr>"

section \<open>Arithmetic of the replica schedule\<close>

lemma sint_int32_of_nat: "n < 2 ^ 31 \<Longrightarrow> sint (word_of_nat n :: int32) = int n"
  by (simp add: signed_of_nat signed_take_bit_int_eq_self)

lemma int32_of_nat_nonzero: "0 < n \<Longrightarrow> n < 2 ^ 31 \<Longrightarrow> (word_of_nat n :: int32) \<noteq> 0"
  using sint_int32_of_nat [of n] by auto

lemma sint_succ_int32: "sint (x :: int32) < 2 ^ 31 - 1 \<Longrightarrow> sint (x + 1) = sint x + 1"
proof -
  assume a: "sint x < 2 ^ 31 - 1"
  have lo: "- (2 ^ 31) \<le> sint x" using sint_ge [of x] by simp
  show ?thesis
    using a lo by (simp add: sint_word_add signed_take_bit_int_eq_self)
qed

lemma go_rem_nonneg: "0 \<le> a \<Longrightarrow> 0 < b \<Longrightarrow> go_rem a b = a mod b"
  by (cases "a = 0") (simp_all add: go_rem_def)

lemma getr_no_replicas: "replicas c = [] \<Longrightarrow> getr c = (Returns (primary c), c)"
  by (simp add: getr_def getp_def)

lemma getr_one_replica: "replicas c = [d] \<Longrightarrow> getr c = (Returns d, c)"
  by (simp add: getr_def slice_index_def)

lemma getr_schedule:
  assumes "2 \<le> length (replicas c)" "length (replicas c) < 2 ^ 31" "0 \<le> sint (cursor c + 1)"
  shows "getr c = (Returns (replicas c ! (nat (sint (cursor c + 1)) mod length (replicas c))),
                   c\<lparr>cursor := cursor c + 1\<rparr>)"
proof -
  let ?n = "length (replicas c)"
  let ?a = "sint (cursor c + 1)"
  have m: "sint (word_of_nat ?n :: int32) = int ?n" "(word_of_nat ?n :: int32) \<noteq> 0"
    using assms sint_int32_of_nat [of ?n] int32_of_nat_nonzero [of ?n] by auto
  have pos: "0 < int ?n"
    using assms(1) by linarith
  have r: "go_rem ?a (int ?n) = ?a mod int ?n"
    using assms(3) pos by (rule go_rem_nonneg)
  have b: "0 \<le> ?a mod int ?n" "?a mod int ?n < int ?n"
    using pos by (rule pos_mod_sign, rule pos_mod_bound)
  have i: "nat (?a mod int ?n) = nat ?a mod ?n"
    using assms(3) by (simp add: nat_mod_distrib)
  have ne: "replicas c \<noteq> []" "length (replicas c) \<noteq> 1"
    using assms(1) by auto
  show ?thesis
    using ne m r b i by (simp add: getr_def slice_index_def Let_def)
qed

lemma getr_times_schedule:
  assumes "2 \<le> length (replicas c)" "length (replicas c) < 2 ^ 31"
    "- 1 \<le> sint (cursor c)" "sint (cursor c) + int k < 2 ^ 31"
  shows "getr_times k c =
           (map (\<lambda>j. Returns (replicas c ! ((nat (sint (cursor c) + 1) + j) mod length (replicas c)))) [0..<k],
            c\<lparr>cursor := cursor c + of_nat k\<rparr>)"
  using assms
proof (induction k arbitrary: c)
  case 0
  then show ?case by simp
next
  case (Suc k)
  let ?c1 = "c\<lparr>cursor := cursor c + 1\<rparr>"
  have s: "sint (cursor c + 1) = sint (cursor c) + 1"
    using Suc.prems by (intro sint_succ_int32) simp
  have g: "getr c = (Returns (replicas c ! (nat (sint (cursor c + 1)) mod length (replicas c))), ?c1)"
    using Suc.prems s by (intro getr_schedule) simp_all
  have ih: "getr_times k ?c1 =
      (map (\<lambda>j. Returns (replicas ?c1 ! ((nat (sint (cursor ?c1) + 1) + j) mod length (replicas ?c1)))) [0..<k],
       ?c1\<lparr>cursor := cursor ?c1 + of_nat k\<rparr>)"
    using Suc.prems s by (intro Suc.IH) simp_all
  have n1: "nat (sint (cursor c) + 1 + 1) = Suc (nat (sint (cursor c) + 1))"
    using Suc.prems by simp
  have shift: "map (\<lambda>j. Returns (replicas c ! ((nat (sint (cursor c) + 1) + j) mod length (replicas c)))) [0..<Suc k]
     = Returns (replicas c ! (nat (sint (cursor c) + 1) mod length (replicas c)))
       # map (\<lambda>j. Returns (replicas c ! ((Suc (nat (sint (cursor c) + 1)) + j) mod length (replicas c)))) [0..<k]"
    by (simp add: upt_conv_Cons map_Suc_upt [symmetric] del: upt_Suc)
  show ?case
    unfolding shift using g ih s n1 by (simp add: add.assoc)
qed

lemma map_nth_rotate:
  "map (\<lambda>j. xs ! ((s + j) mod length xs)) [0..<length xs] = rotate s xs"
  by (rule nth_equalityI) (simp_all add: nth_rotate)

text \<open>
  While every incremented cursor stays non-negative, as many consecutive selections as
  there are replicas answer the replicas rotated by the cursor plus one: every replica
  once, in cyclic order.
\<close>

lemma getr_round_robin:
  assumes "2 \<le> length (replicas c)" "length (replicas c) < 2 ^ 31"
    "- 1 \<le> sint (cursor c)" "sint (cursor c) + int (length (replicas c)) < 2 ^ 31"
  shows "getr_times (length (replicas c)) c =
           (map Returns (rotate (nat (sint (cursor c) + 1)) (replicas c)),
            c\<lparr>cursor := cursor c + of_nat (length (replicas c))\<rparr>)"
proof -
  have "getr_times (length (replicas c)) c =
      (map Returns (map (\<lambda>j. replicas c ! ((nat (sint (cursor c) + 1) + j) mod length (replicas c)))
         [0..<length (replicas c)]),
       c\<lparr>cursor := cursor c + of_nat (length (replicas c))\<rparr>)"
    using assms getr_times_schedule [of c "length (replicas c)"] by (simp add: comp_def)
  then show ?thesis
    by (simp only: map_nth_rotate)
qed

lemma getr_round_robin_example:
  "getr_times 3 \<lparr> primary = handle 0, replicas = [handle 1, handle 2, handle 3], cursor = 4 \<rparr> =
     ([Returns (handle 3), Returns (handle 1), Returns (handle 2)],
      \<lparr> primary = handle 0, replicas = [handle 1, handle 2, handle 3], cursor = 7 \<rparr>)"
proof -
  let ?c = "\<lparr> primary = handle 0, replicas = [handle 1, handle 2, handle 3], cursor = 4 \<rparr>"
  have h1: "2 \<le> length (replicas ?c)"
    by simp
  have h2: "length (replicas ?c) < 2 ^ 31"
    by simp
  have h3: "- 1 \<le> sint (cursor ?c)"
    by simp
  have h4: "sint (cursor ?c) + int (length (replicas ?c)) < 2 ^ 31"
    by simp
  have n: "length (replicas ?c) = 3"
    by simp
  have rot: "rotate (nat (sint (cursor ?c) + 1)) (replicas ?c) = [handle 3, handle 1, handle 2]"
  proof -
    have "nat (sint (cursor ?c) + 1) = Suc (Suc (Suc (Suc (Suc 0))))"
      by simp
    then show ?thesis
      by (simp only: rotate_Suc rotate0 rotate1.simps id_apply append.simps Client.simps)
  qed
  show ?thesis
    using getr_round_robin [OF h1 h2 h3 h4] unfolding rot n by simp
qed

section \<open>Materialising rows\<close>

lemma fill_row_other: "k \<notin> set columns \<Longrightarrow> fill_row row columns vals k = row k"
  by (induction row columns vals rule: fill_row.induct) auto

lemma fill_row_at:
  "length vals = length columns \<Longrightarrow> i < length columns \<Longrightarrow>
   columns ! i \<notin> set (drop (Suc i) columns) \<Longrightarrow>
   fill_row row columns vals (columns ! i) = Some (decode (vals ! i))"
proof (induction row columns vals arbitrary: i rule: fill_row.induct)
  case (1 row c columns v vals)
  show ?case
  proof (cases i)
    case 0
    with "1.prems" show ?thesis by (simp add: fill_row_other)
  next
    case (Suc j)
    have "fill_row (row(c \<mapsto> decode v)) columns vals (columns ! j) = Some (decode (vals ! j))"
      using "1.prems" Suc by (intro "1.IH") simp_all
    with Suc show ?thesis by simp
  qed
qed simp_all

lemma Next_cons:
  "\<not> closed rs \<Longrightarrow> pending rs = row # rest \<Longrightarrow>
   Next rs = (True, rs\<lparr>pending := rest, lastcols := Some row\<rparr>)"
  by (simp add: Next_def)

lemma Next_nil: "\<not> closed rs \<Longrightarrow> pending rs = [] \<Longrightarrow> Next rs = (False, Close rs)"
  by (simp add: Next_def)

lemma Rows_loop_all:
  "\<not> closed rs \<Longrightarrow> \<forall>row \<in> set (pending rs). length row = length columns \<Longrightarrow>
   Rows_loop columns rs acc =
     (Inr (acc @ map (fill_row Map.empty columns) (pending rs)),
      rs\<lparr>pending := [], lastcols := None, closed := True\<rparr>)"
proof (induction "pending rs" arbitrary: rs acc)
  case Nil
  then have "Next rs = (False, Close rs)" by (simp add: Next_nil)
  with Nil show ?case
    by (subst Rows_loop.simps) (simp add: Close_def)
next
  case (Cons row rest)
  let ?rs1 = "rs\<lparr>pending := rest, lastcols := Some row\<rparr>"
  have nx: "Next rs = (True, ?rs1)"
    using Cons.prems(1) Cons.hyps(2) [symmetric] by (rule Next_cons)
  have sc: "Scan ?rs1 (length columns) = Inr row"
    using Cons.prems Cons.hyps(2) [symmetric] by (simp add: Scan_def)
  have ih: "Rows_loop columns ?rs1 (acc @ [fill_row Map.empty columns row]) =
      (Inr ((acc @ [fill_row Map.empty columns row]) @ map (fill_row Map.empty columns) (pending ?rs1)),
       ?rs1\<lparr>pending := [], lastcols := None, closed := True\<rparr>)"
    using Cons.prems Cons.hyps(2) [symmetric] by (intro Cons.hyps(1)) simp_all
  show ?case
    using nx sc ih Cons.hyps(2) [symmetric] by (subst Rows_loop.simps) simp
qed

lemma Rows_loop_not_closed_early:
  "\<not> closed rs \<Longrightarrow> closed (snd (Rows_loop columns rs acc)) \<Longrightarrow>
   pending (snd (Rows_loop columns rs acc)) = []"
proof (induction columns rs acc rule: Rows_loop.induct)
  case (1 columns rs acc)
  show ?case
  proof (cases "pending rs")
    case Nil
    with "1.prems" have "Next rs = (False, Close rs)" by (simp add: Next_nil)
    with Nil show ?thesis
      by (subst Rows_loop.simps) (simp add: Close_def)
  next
    case (Cons row rest)
    let ?rs1 = "rs\<lparr>pending := rest, lastcols := Some row\<rparr>"
    have nx: "Next rs = (True, ?rs1)"
      using "1.prems"(1) Cons by (rule Next_cons)
    show ?thesis
    proof (cases "Scan ?rs1 (length columns)")
      case (Inl err)
      with nx "1.prems" show ?thesis
        by (subst (asm) Rows_loop.simps) simp
    next
      case (Inr vals)
      with nx "1.prems" "1.IH" [of vals] show ?thesis
        by (subst Rows_loop.simps, subst (asm) (2) Rows_loop.simps) simp
    qed
  qed
qed

lemma Row_first:
  assumes "rows r = Some rs" "\<not> closed rs" "cols rs \<noteq> []"
    "pending rs = row # rest" "length row = length (cols rs)"
  shows "Row r = (Inr (fill_row Map.empty (cols rs) row),
                  r\<lparr>rows := Some (rs\<lparr>pending := rest, lastcols := None, closed := True\<rparr>)\<rparr>)"
proof -
  have nx: "Next rs = (True, rs\<lparr>pending := rest, lastcols := Some row\<rparr>)"
    using assms(2,4) by (rule Next_cons)
  have sc: "Scan (rs\<lparr>pending := rest, lastcols := Some row\<rparr>) (length (cols rs)) = Inr row"
    using assms(2,5) by (simp add: Scan_def)
  show ?thesis
    using assms(1,2,3) nx sc by (simp add: Row_def Columns_def Close_def)
qed

lemma Row_none_left:
  assumes "rows r = Some rs" "\<not> closed rs" "cols rs \<noteq> []" "pending rs = []"
  shows "Row r = (Inr Map.empty, r\<lparr>rows := Some (rs\<lparr>lastcols := None, closed := True\<rparr>)\<rparr>)"
  using assms by (simp add: Row_def Columns_def Next_nil Close_def)

lemma Rows_all:
  assumes "rows r = Some rs" "\<not> closed rs" "cols rs \<noteq> []"
    "\<forall>row \<in> set (pending rs). length row = length (cols rs)"
  shows "Rows r = (Inr (map (fill_row Map.empty (cols rs)) (pending rs)),
                   r\<lparr>rows := Some (rs\<lparr>pending := [], lastcols := None, closed := True\<rparr>)\<rparr>)"
  using assms Rows_loop_all [of rs "cols rs" "[]"]
  by (simp add: Rows_def Columns_def)

lemma Row_takes_at_most_one:
  assumes "rows r = Some rs"
  shows "\<exists>rs1. rows (snd (Row r)) = Some rs1 \<and> (pending rs1 = pending rs \<or> pending rs1 = tl (pending rs))"
  using assms
  by (auto simp: Row_def Columns_def Next_def Close_def split: sum.splits list.splits if_splits)

lemma Rows_keeps_cursor:
  assumes "rows r = Some rs" "\<not> closed rs"
  shows "\<exists>rs2. rows (snd (Rows r)) = Some rs2 \<and> (closed rs2 \<longrightarrow> pending rs2 = [])"
proof (cases "cols rs = []")
  case True
  with assms show ?thesis
    by (simp add: Rows_def Columns_def)
next
  case False
  have "rows (snd (Rows r)) = Some (snd (Rows_loop (cols rs) rs []))"
    using assms False by (simp add: Rows_def Columns_def split: prod.splits)
  with assms(2) show ?thesis
    by (simp add: Rows_loop_not_closed_early)
qed

lemma SetReplica_without_driver_panics:
  "SetReplica e c (NoDriver max_open max_idle lifetime ping) w = (Panics NilDereference, c, w)"
  by (simp add: SetReplica_def NewDatabaseWithConfig_def)

section \<open>Read selection\<close>

text \<open>
  Claim C1: the read selection answers the primary when there is no replica, the single
  replica without touching the cursor when there is one, and otherwise adds one to the
  cursor and answers \<^verbatim>\<open>replicas[cursor mod N]\<close>. The first two cases, and the third
  while the incremented cursor is not negative, are \<open>getr_no_replicas\<close>,
  \<open>getr_one_replica\<close> and \<open>getr_schedule\<close>. The third case fails once the \<^verbatim>\<open>int32\<close> cursor has wrapped: with
  three replicas and the cursor at its largest value, the addition is made, the signed
  remainder is negative and the selection panics instead of answering a replica.
\<close>

theorem getr_wrapped_cursor_selects_nothing:
  "getr \<lparr> primary = p, replicas = [a, b, c], cursor = 2147483647 \<rparr> =
     (Panics IndexOutOfRange, \<lparr> primary = p, replicas = [a, b, c], cursor = - 2147483648 \<rparr>)"
  by (simp add: getr_def slice_index_def go_rem_def)

text \<open>
  Claim C2: with \<open>N \<ge> 2\<close> replicas and any starting value of the cursor, \<open>N\<close>
  consecutive read selections answer every replica once, in cyclic order. The code does
  so while every incremented cursor is non-negative (\<open>getr_round_robin\<close>). It fails where
  the \<^verbatim>\<open>int32\<close> cursor wraps, by the signed remainder: with three replicas and the
  cursor one below its largest value, the first of three consecutive selections answers
  the second replica and the other two panic.
\<close>

theorem getr_times_across_wrap:
  "fst (getr_times 3
          \<lparr> primary = handle 0, replicas = [handle 1, handle 2, handle 3], cursor = 2147483646 \<rparr>) =
     [Returns (handle 2), Panics IndexOutOfRange, Panics IndexOutOfRange]"
  by (simp add: numeral_3_eq_3 getr_def slice_index_def go_rem_def)

text \<open>
  Claim C3: for every replica count \<open>N \<ge> 2\<close> and every value of the cursor, wrapped
  ones included, the index of the selected replica lies in \<open>0..N-1\<close>. The code takes
  the signed remainder of the \<^verbatim>\<open>int32\<close> cursor: whenever the incremented cursor is
  negative and not a multiple of \<open>N\<close>, the index is negative and the selection panics.
\<close>

theorem getr_negative_counter_panics:
  assumes "2 \<le> length (replicas c)" "length (replicas c) < 2 ^ 31"
    "sint (cursor c + 1) < 0" "\<not> int (length (replicas c)) dvd sint (cursor c + 1)"
  shows "go_rem (sint (cursor c + 1)) (sint (word_of_nat (length (replicas c)) :: int32)) < 0
       \<and> getr c = (Panics IndexOutOfRange, c\<lparr>cursor := cursor c + 1\<rparr>)"
proof -
  let ?n = "length (replicas c)"
  let ?a = "sint (cursor c + 1)"
  have m: "sint (word_of_nat ?n :: int32) = int ?n" "(word_of_nat ?n :: int32) \<noteq> 0"
    using assms sint_int32_of_nat [of ?n] int32_of_nat_nonzero [of ?n] by auto
  have "\<bar>?a\<bar> mod int ?n \<noteq> 0"
    using assms(4) by (simp add: dvd_eq_mod_eq_0 [symmetric])
  moreover have "0 \<le> \<bar>?a\<bar> mod int ?n"
    using assms(1) by (intro pos_mod_sign) linarith
  ultimately have "0 < \<bar>?a\<bar> mod int ?n" by linarith
  then have neg: "go_rem ?a (int ?n) < 0"
    using assms(3) by (simp add: go_rem_def mult_less_0_iff)
  have idx: "go_rem ?a (sint (word_of_nat ?n :: int32)) < 0"
    using neg m by simp
  have ne: "replicas c \<noteq> []" "length (replicas c) \<noteq> 1"
    using assms(1) by auto
  have "getr c = (Panics IndexOutOfRange, c\<lparr>cursor := cursor c + 1\<rparr>)"
    using ne m neg by (simp add: getr_def slice_index_def Let_def)
  with idx show ?thesis
    by simp
qed

theorem getr_negative_counter_panics_witness:
  "go_rem (sint ((2147483647 :: int32) + 1)) (sint (word_of_nat 3 :: int32)) < 0
   \<and> getr \<lparr> primary = handle 0, replicas = [handle 1, handle 2, handle 3], cursor = 2147483647 \<rparr> =
       (Panics IndexOutOfRange,
        \<lparr> primary = handle 0, replicas = [handle 1, handle 2, handle 3], cursor = - 2147483648 \<rparr>)"
  using getr_negative_counter_panics
    [of "\<lparr> primary = handle 0, replicas = [handle 1, handle 2, handle 3], cursor = 2147483647 \<rparr>"]
  by simp

section \<open>Writes and transactions\<close>

text \<open>
  Claim C4: \<^verbatim>\<open>Exec\<close>, \<^verbatim>\<open>ExecContext\<close>, \<^verbatim>\<open>BeginTransaction\<close> and
  \<^verbatim>\<open>BeginTransactionContext\<close> of a client go to the primary handle and never to a
  replica, however many replicas are registered: the one call each of them makes is
  received by the pool of the primary, each is the operation of the same name on the
  primary, the result of a write carries the primary's identifier, and nothing changes
  when the replicas and the cursor are replaced by others.
\<close>

theorem writes_go_to_primary:
  "calls (snd (Client_Exec e c query args w)) =
     calls w @ [(db (primary c), ExecContext defaultCtx query args)]
   \<and> calls (snd (Client_ExecContext e c k query args w)) =
     calls w @ [(db (primary c), ExecContext k query args)]
   \<and> calls (snd (Client_BeginTransaction e c w)) =
     calls w @ [(db (primary c), BeginTx defaultCtx)]
   \<and> calls (snd (Client_BeginTransactionContext e c k w)) =
     calls w @ [(db (primary c), BeginTx k)]
   \<and> Client_Exec e c query args w = Database_Exec e (primary c) query args w
   \<and> Client_ExecContext e c k query args w = Database_ExecContext e (primary c) k query args w
   \<and> Client_BeginTransaction e c w = Database_BeginTransaction e (primary c) w
   \<and> Client_BeginTransactionContext e c k w = Database_BeginTransactionContext e (primary c) k w
   \<and> hit (fst (fst (Client_Exec e c query args w))) = UniqId (cf (primary c))
   \<and> hit (fst (fst (Client_ExecContext e c k query args w))) = UniqId (cf (primary c))
   \<and> Client_Exec e (c\<lparr>replicas := rs, cursor := n\<rparr>) query args w = Client_Exec e c query args w
   \<and> Client_ExecContext e (c\<lparr>replicas := rs, cursor := n\<rparr>) k query args w =
       Client_ExecContext e c k query args w
   \<and> Client_BeginTransaction e (c\<lparr>replicas := rs, cursor := n\<rparr>) w = Client_BeginTransaction e c w
   \<and> Client_BeginTransactionContext e (c\<lparr>replicas := rs, cursor := n\<rparr>) k w =
       Client_BeginTransactionContext e c k w"
  by (simp add: Client_Exec_def Client_ExecContext_def Client_BeginTransaction_def
      Client_BeginTransactionContext_def Database_Exec_def Database_ExecContext_def
      Database_BeginTransaction_def Database_BeginTransactionContext_def getp_def
      received_def buildResult_def split: prod.splits sum.splits)

section \<open>Registering a replica\<close>

text \<open>
  Claim C5: registering an absent configuration fails with the invalid-replica error and
  leaves the client, its replicas included, as it was; when opening the handle fails
  (in particular when \<^verbatim>\<open>sql.Open\<close> fails), that error is returned and the client is as
  it was; when opening succeeds the new handle is appended at the end of the replicas.
\<close>

theorem SetReplica_registers_or_leaves_unchanged:
  "SetReplica e c NilConfig w = (Returns (Some ErrorClientInvalidReplica), c, w)
   \<and> (NewDatabaseWithConfig e replica w = (Returns (Inl err), w1) \<longrightarrow>
        SetReplica e c replica w = (Returns (Some err), c, w1))
   \<and> (open_reply e w (FormatDSN e cfg) = Some err \<longrightarrow>
        SetReplica e c (WithDriver cfg) w = (Returns (Some err), c, w))
   \<and> (NewDatabaseWithConfig e replica w = (Returns (Inr d), w1) \<longrightarrow>
        SetReplica e c replica w = (Returns None, c\<lparr>replicas := replicas c @ [d]\<rparr>, w1))"
proof -
  have nil: "NewDatabaseWithConfig e NilConfig w = (Panics NilDereference, w)"
    by (simp add: NewDatabaseWithConfig_def)
  have fails: "NewDatabaseWithConfig e replica w = (Returns (Inl err), w1) \<longrightarrow>
        SetReplica e c replica w = (Returns (Some err), c, w1)"
    using nil by (cases "replica = NilConfig") (auto simp: SetReplica_def)
  have opens: "NewDatabaseWithConfig e replica w = (Returns (Inr d), w1) \<longrightarrow>
        SetReplica e c replica w = (Returns None, c\<lparr>replicas := replicas c @ [d]\<rparr>, w1)"
    using nil by (cases "replica = NilConfig") (auto simp: SetReplica_def)
  have dsn: "open_reply e w (FormatDSN e cfg) = Some err \<longrightarrow>
        SetReplica e c (WithDriver cfg) w = (Returns (Some err), c, w)"
    by (simp add: SetReplica_def NewDatabaseWithConfig_def sql_Open_def)
  show ?thesis
    using fails opens dsn by (simp add: SetReplica_def)
qed

theorem SetReplica_registers_or_leaves_unchanged_witness:
  "SetReplica failing_env \<lparr> primary = handle 0, replicas = [handle 1], cursor = 0 \<rparr>
       (WithDriver test_config) \<lparr> opened = 2, calls = [] \<rparr> =
     (Returns (Some (DriverError ''sql: unknown driver'')),
      \<lparr> primary = handle 0, replicas = [handle 1], cursor = 0 \<rparr>, \<lparr> opened = 2, calls = [] \<rparr>)
   \<and> SetReplica quiet_env \<lparr> primary = handle 0, replicas = [handle 1], cursor = 0 \<rparr>
       (WithDriver test_config) \<lparr> opened = 2, calls = [] \<rparr> =
     (Returns None,
      \<lparr> primary = handle 0, replicas = [handle 1, handle 2], cursor = 0 \<rparr>,
      \<lparr> opened = 3,
        calls = [(2, SetConnMaxLifetime 30000000000), (2, SetMaxOpenConns 50), (2, SetMaxIdleConns 10)] \<rparr>)"
proof -
  let ?c = "\<lparr> primary = handle 0, replicas = [handle 1], cursor = 0 \<rparr>"
  let ?w = "\<lparr> opened = 2, calls = [] \<rparr>"
  let ?w1 = "\<lparr> opened = 3,
        calls = [(2, SetConnMaxLifetime 30000000000), (2, SetMaxOpenConns 50), (2, SetMaxIdleConns 10)] \<rparr>"
  have f: "NewDatabaseWithConfig failing_env (WithDriver test_config) ?w =
      (Returns (Inl (DriverError ''sql: unknown driver'')), ?w)"
    by (simp add: NewDatabaseWithConfig_def sql_Open_def failing_env_def quiet_env_def)
  have s: "NewDatabaseWithConfig quiet_env (WithDriver test_config) ?w = (Returns (Inr (handle 2)), ?w1)"
    by (simp add: NewDatabaseWithConfig_def sql_Open_def quiet_env_def test_config_def
        NewDefaultConfig_def received_def handle_def Let_def
        DefaultMaxLifetime_def DefaultMaxOpenConns_def DefaultMaxIdleConns_def Second_def)
  show ?thesis
    using f s
      SetReplica_registers_or_leaves_unchanged [where e = failing_env and c = ?c and w = ?w
        and replica = "WithDriver test_config" and cfg = test_config
        and err = "DriverError ''sql: unknown driver''" and ?w1.0 = ?w]
      SetReplica_registers_or_leaves_unchanged [where e = quiet_env and c = ?c and w = ?w
        and replica = "WithDriver test_config" and d = "handle 2" and ?w1.0 = ?w1]
    by simp
qed

section \<open>Materialising a result\<close>

text \<open>
  Claim C6: when the cursor of a row-set result reports no column, \<^verbatim>\<open>Row\<close> and
  \<^verbatim>\<open>Rows\<close> both fail with the no-columns-found error (and leave the cursor alone).
\<close>

theorem no_columns_found:
  assumes "rows r = Some rs" "Columns rs = Inr []"
  shows "Row r = (Inl ErrorResultNoColumnsFound, r) \<and> Rows r = (Inl ErrorResultNoColumnsFound, r)"
  using assms by (simp add: Row_def Rows_def)

theorem no_columns_found_witness:
  "Row (buildResultRows (handle 0) (Some (users_rows\<lparr>cols := []\<rparr>))) =
     (Inl ErrorResultNoColumnsFound, buildResultRows (handle 0) (Some (users_rows\<lparr>cols := []\<rparr>)))
   \<and> Rows (buildResultRows (handle 0) (Some (users_rows\<lparr>cols := []\<rparr>))) =
     (Inl ErrorResultNoColumnsFound, buildResultRows (handle 0) (Some (users_rows\<lparr>cols := []\<rparr>)))"
  using no_columns_found [of "buildResultRows (handle 0) (Some (users_rows\<lparr>cols := []\<rparr>))"
      "users_rows\<lparr>cols := []\<rparr>"]
  by (simp add: buildResultRows_def users_rows_def Columns_def)

text \<open>
  Claim C7, as stated for every row, fails when two columns have the same name: the
  later column overwrites the entry of the earlier one. Here the first column is NULL and
  the entry of its name is the second column's value, through \<^verbatim>\<open>Row\<close> and through
  \<^verbatim>\<open>Rows\<close>.
\<close>

theorem null_lost_under_repeated_column_name:
  "cols alias_rows ! 0 = ''a'' \<and> hd (pending alias_rows) ! 0 = None
   \<and> fst (Row (buildResultRows (handle 0) (Some alias_rows))) = Inr [''a'' \<mapsto> ''x'']
   \<and> fst (Rows (buildResultRows (handle 0) (Some alias_rows))) = Inr [[''a'' \<mapsto> ''x'']]"
proof -
  let ?r = "buildResultRows (handle 0) (Some alias_rows)"
  have h1: "rows ?r = Some alias_rows"
    by (simp add: buildResultRows_def)
  have "Row ?r = (Inr (fill_row Map.empty (cols alias_rows) [None, Some ''x'']),
      ?r\<lparr>rows := Some (alias_rows\<lparr>pending := [], lastcols := None, closed := True\<rparr>)\<rparr>)"
    by (rule Row_first [OF h1]) (simp_all add: alias_rows_def)
  moreover have "Rows ?r = (Inr (map (fill_row Map.empty (cols alias_rows)) (pending alias_rows)),
      ?r\<lparr>rows := Some (alias_rows\<lparr>pending := [], lastcols := None, closed := True\<rparr>)\<rparr>)"
    by (rule Rows_all [OF h1]) (simp_all add: alias_rows_def)
  ultimately show ?thesis
    by (simp add: alias_rows_def decode_def)
qed

text \<open>
  Claim C7, amended: for an open cursor whose rows have one value per column, and a
  column whose name is not repeated by a later column, \<^verbatim>\<open>Row\<close> maps the column's name
  to the empty string when the first row holds NULL there and to the value's bytes
  otherwise, and \<^verbatim>\<open>Rows\<close> does so for every row, in the order of the cursor.
\<close>

theorem null_column_is_empty_string:
  assumes "rows r = Some rs" "\<not> closed rs"
    "\<forall>row \<in> set (pending rs). length row = length (cols rs)"
    "i < length (cols rs)" "cols rs ! i \<notin> set (drop (Suc i) (cols rs))"
  shows "(\<forall>row rest. pending rs = row # rest \<longrightarrow>
            (\<exists>m. fst (Row r) = Inr m \<and>
                 m (cols rs ! i) = Some (case row ! i of None \<Rightarrow> '''' | Some b \<Rightarrow> b)))
       \<and> (\<exists>ms. fst (Rows r) = Inr ms \<and> length ms = length (pending rs) \<and>
              (\<forall>k < length (pending rs).
                 (ms ! k) (cols rs ! i) =
                   Some (case pending rs ! k ! i of None \<Rightarrow> '''' | Some b \<Rightarrow> b)))"
proof -
  have ne: "cols rs \<noteq> []"
    using assms(4) by auto
  have at: "fill_row Map.empty (cols rs) row (cols rs ! i) =
             Some (case row ! i of None \<Rightarrow> '''' | Some b \<Rightarrow> b)"
    if "length row = length (cols rs)" for row
    using fill_row_at [OF that assms(4,5), of Map.empty] by (simp add: decode_def)
  have a: "\<exists>m. fst (Row r) = Inr m \<and>
                 m (cols rs ! i) = Some (case row ! i of None \<Rightarrow> '''' | Some b \<Rightarrow> b)"
    if p: "pending rs = row # rest" for row rest
  proof -
    have len: "length row = length (cols rs)"
      using assms(3) p by simp
    show ?thesis
      using Row_first [OF assms(1,2) ne p len] at [OF len] by simp
  qed
  have b: "(map (fill_row Map.empty (cols rs)) (pending rs) ! k) (cols rs ! i) =
             Some (case pending rs ! k ! i of None \<Rightarrow> '''' | Some b \<Rightarrow> b)"
    if k: "k < length (pending rs)" for k
  proof -
    have "length (pending rs ! k) = length (cols rs)"
      using assms(3) k by simp
    then show ?thesis
      using k at by simp
  qed
  have "fst (Rows r) = Inr (map (fill_row Map.empty (cols rs)) (pending rs))"
    using Rows_all [OF assms(1,2) ne assms(3)] by simp
  then have c: "\<exists>ms. fst (Rows r) = Inr ms \<and> length ms = length (pending rs) \<and>
              (\<forall>k < length (pending rs).
                 (ms ! k) (cols rs ! i) =
                   Some (case pending rs ! k ! i of None \<Rightarrow> '''' | Some b \<Rightarrow> b))"
    using b by simp
  show ?thesis
    using a c by blast
qed

theorem null_column_is_empty_string_witness:
  "(\<exists>m. fst (Row (buildResultRows (handle 0) (Some users_rows))) = Inr m \<and> m ''name'' = Some '''')
   \<and> (\<exists>ms. fst (Rows (buildResultRows (handle 0) (Some users_rows))) = Inr ms \<and> length ms = 2
          \<and> (ms ! 0) ''name'' = Some '''' \<and> (ms ! 1) ''name'' = Some ''bob'')"
proof -
  let ?r = "buildResultRows (handle 0) (Some users_rows)"
  have h1: "rows ?r = Some users_rows"
    by (simp add: buildResultRows_def)
  have h2: "\<not> closed users_rows"
    by (simp add: users_rows_def)
  have h3: "\<forall>row \<in> set (pending users_rows). length row = length (cols users_rows)"
    by (simp add: users_rows_def)
  have h4: "1 < length (cols users_rows)"
    by (simp add: users_rows_def)
  have h5: "cols users_rows ! 1 \<notin> set (drop (Suc 1) (cols users_rows))"
    by (simp add: users_rows_def)
  note t = null_column_is_empty_string [OF h1 h2 h3 h4 h5]
  have p: "pending users_rows = [Some ''5'', None] # [[Some ''6'', Some ''bob'']]"
    by (simp add: users_rows_def)
  from t p have "\<exists>m. fst (Row ?r) = Inr m \<and>
      m (cols users_rows ! 1) = Some (case [Some ''5'', None] ! 1 of None \<Rightarrow> '''' | Some b \<Rightarrow> b)"
    by blast
  then have a: "\<exists>m. fst (Row ?r) = Inr m \<and> m ''name'' = Some ''''"
    by (simp add: users_rows_def)
  from t obtain ms where ms: "fst (Rows ?r) = Inr ms" "length ms = length (pending users_rows)"
    "\<forall>k < length (pending users_rows).
       (ms ! k) (cols users_rows ! 1) =
         Some (case pending users_rows ! k ! 1 of None \<Rightarrow> '''' | Some b \<Rightarrow> b)"
    by blast
  have l: "length ms = 2"
    using ms(2) by (simp add: users_rows_def)
  have k0: "(ms ! 0) ''name'' = Some ''''"
    using ms(3) [rule_format, of 0] by (simp add: users_rows_def)
  have k1: "(ms ! 1) ''name'' = Some ''bob''"
    using ms(3) [rule_format, of 1] by (simp add: users_rows_def)
  show ?thesis
    using a ms(1) l k0 k1 by blast
qed

text \<open>
  Claim C8: for a result without a row set, as every mutation result is, \<^verbatim>\<open>Row\<close>
  answers the empty mapping and no error and \<^verbatim>\<open>Rows\<close> the empty sequence and no error.
\<close>

theorem mutation_result_has_no_rows:
  assumes "rows r = None"
  shows "Row r = (Inr Map.empty, r) \<and> Rows r = (Inr [], r)"
  using assms by (simp add: Row_def Rows_def)

theorem mutation_result_has_no_rows_witness:
  "Row (buildResult (handle 0) (Some \<lparr> rows_affected = (1, None), last_insert_id = (7, None) \<rparr>)) =
     (Inr Map.empty,
      buildResult (handle 0) (Some \<lparr> rows_affected = (1, None), last_insert_id = (7, None) \<rparr>))
   \<and> Rows (buildResult (handle 0) (Some \<lparr> rows_affected = (1, None), last_insert_id = (7, None) \<rparr>)) =
     (Inr [],
      buildResult (handle 0) (Some \<lparr> rows_affected = (1, None), last_insert_id = (7, None) \<rparr>))"
  using mutation_result_has_no_rows
    [of "buildResult (handle 0) (Some \<lparr> rows_affected = (1, None), last_insert_id = (7, None) \<rparr>)"]
  by (simp add: buildResult_def)

text \<open>
  Claim C9: for a row-set result whose cursor reports at least one column, \<^verbatim>\<open>Row\<close>
  takes at most the first row off the cursor and, having read it, leaves the cursor
  closed with the other rows unread; \<^verbatim>\<open>Rows\<close> never leaves the cursor closed with rows
  unread, and when every row has one value per column it answers all of them and leaves
  the cursor exhausted.
\<close>

theorem Row_closes_early_Rows_exhausts:
  assumes "rows r = Some rs" "Columns rs = Inr columns" "columns \<noteq> []"
  shows "(\<forall>row rest. pending rs = row # rest \<and> length row = length columns \<longrightarrow>
            Row r = (Inr (fill_row Map.empty columns row),
                     r\<lparr>rows := Some (rs\<lparr>pending := rest, lastcols := None, closed := True\<rparr>)\<rparr>))
       \<and> (\<exists>rs1. rows (snd (Row r)) = Some rs1 \<and>
                  (pending rs1 = pending rs \<or> pending rs1 = tl (pending rs)))
       \<and> (\<exists>rs2. rows (snd (Rows r)) = Some rs2 \<and> (closed rs2 \<longrightarrow> pending rs2 = []))
       \<and> ((\<forall>row \<in> set (pending rs). length row = length columns) \<longrightarrow>
            Rows r = (Inr (map (fill_row Map.empty columns) (pending rs)),
                      r\<lparr>rows := Some (rs\<lparr>pending := [], lastcols := None, closed := True\<rparr>)\<rparr>))"
proof -
  have op: "\<not> closed rs" and cs: "cols rs = columns"
    using assms(2) by (auto simp: Columns_def split: if_splits)
  have ne: "cols rs \<noteq> []"
    using cs assms(3) by simp
  have a: "\<forall>row rest. pending rs = row # rest \<and> length row = length columns \<longrightarrow>
            Row r = (Inr (fill_row Map.empty columns row),
                     r\<lparr>rows := Some (rs\<lparr>pending := rest, lastcols := None, closed := True\<rparr>)\<rparr>)"
    using Row_first [OF assms(1) op ne] cs by auto
  have d: "(\<forall>row \<in> set (pending rs). length row = length columns) \<longrightarrow>
            Rows r = (Inr (map (fill_row Map.empty columns) (pending rs)),
                      r\<lparr>rows := Some (rs\<lparr>pending := [], lastcols := None, closed := True\<rparr>)\<rparr>)"
    using Rows_all [OF assms(1) op ne] cs by auto
  show ?thesis
    using a d Row_takes_at_most_one [OF assms(1)] Rows_keeps_cursor [OF assms(1) op]
    by blast
qed

theorem Row_closes_early_Rows_exhausts_witness:
  "Row (buildResultRows (handle 0) (Some users_rows)) =
     (Inr [''uid'' \<mapsto> ''5'', ''name'' \<mapsto> ''''],
      buildResultRows (handle 0)
        (Some (users_rows\<lparr>pending := [[Some ''6'', Some ''bob'']], lastcols := None, closed := True\<rparr>)))
   \<and> Rows (buildResultRows (handle 0) (Some users_rows)) =
     (Inr [[''uid'' \<mapsto> ''5'', ''name'' \<mapsto> ''''], [''uid'' \<mapsto> ''6'', ''name'' \<mapsto> ''bob'']],
      buildResultRows (handle 0)
        (Some (users_rows\<lparr>pending := [], lastcols := None, closed := True\<rparr>)))"
proof -
  let ?r = "buildResultRows (handle 0) (Some users_rows)"
  have h1: "rows ?r = Some users_rows"
    by (simp add: buildResultRows_def)
  have h2: "Columns users_rows = Inr [''uid'', ''name'']"
    by (simp add: Columns_def users_rows_def)
  have h3: "[''uid'', ''name''] \<noteq> []"
    by simp
  note t = Row_closes_early_Rows_exhausts [OF h1 h2 h3]
  have p: "pending users_rows = [Some ''5'', None] # [[Some ''6'', Some ''bob'']]
           \<and> length [Some ''5'', None :: RawBytes] = length [''uid'', ''name'']"
    by (simp add: users_rows_def)
  have w: "\<forall>row \<in> set (pending users_rows). length row = length [''uid'', ''name'']"
    by (simp add: users_rows_def)
  have "Row ?r = (Inr (fill_row Map.empty [''uid'', ''name''] [Some ''5'', None]),
      ?r\<lparr>rows := Some (users_rows\<lparr>pending := [[Some ''6'', Some ''bob'']], lastcols := None, closed := True\<rparr>)\<rparr>)"
    using t p by blast
  moreover have "Rows ?r = (Inr (map (fill_row Map.empty [''uid'', ''name'']) (pending users_rows)),
      ?r\<lparr>rows := Some (users_rows\<lparr>pending := [], lastcols := None, closed := True\<rparr>)\<rparr>)"
    using t w by blast
  ultimately show ?thesis
    by (simp add: buildResultRows_def users_rows_def decode_def)
qed

text \<open>
  Claim C10: a result built from a row cursor, as \<^verbatim>\<open>Query\<close> and \<^verbatim>\<open>QueryContext\<close>
  build theirs, has no mutation outcome, so \<^verbatim>\<open>RowsAffected\<close> and \<^verbatim>\<open>LastInsertId\<close>
  on it panic on the \<^verbatim>\<open>nil\<close> outcome instead of returning an error.
\<close>

theorem row_set_result_has_no_outcome:
  "result (buildResultRows d rs) = None
   \<and> RowsAffected (buildResultRows d rs) = Panics NilDereference
   \<and> LastInsertId (buildResultRows d rs) = Panics NilDereference
   \<and> fst (fst (Database_QueryContext e d k query args w)) =
        buildResultRows d (fst (query_reply e w (db d) k query args))
   \<and> fst (fst (Database_Query e d query args w)) =
        buildResultRows d (fst (query_reply e w (db d) defaultCtx query args))"
  by (simp add: buildResultRows_def RowsAffected_def LastInsertId_def
      Database_QueryContext_def Database_Query_def split: prod.splits)

end
